theory Spec2Isabelle
  imports Main "HOL-Library.AList"
begin

section \<open>ChillMCP break tools: the shared state\<close>

text \<open>
  The module \<^verbatim>\<open>src/core/tools.py\<close> keeps one global \<^verbatim>\<open>server_state\<close> object and
  mutates it from two coroutines, \<^verbatim>\<open>execute_break_tool\<close> and \<^verbatim>\<open>check_hidden_combo\<close>.
  The model passes that object explicitly. Python integers are \<open>int\<close>; the dictionary
  \<^verbatim>\<open>combo_count\<close> is an association list in insertion order, read by \<open>map_of\<close> and
  written by \<open>AList.update\<close> (an existing key keeps its place, a new key goes last);
  the list \<^verbatim>\<open>recent_actions\<close> is a \<open>string list\<close>, most recent last.

  The awaited primitives of the state object and \<^verbatim>\<open>asyncio.sleep\<close> are effects that the
  properties below count and order. Each of them appends one entry to the field
  \<open>calls\<close>, the log of the awaited calls in the order in which they were made.
\<close>

datatype effect = Sleep nat | DecreaseStress int | MaybeIncreaseBossAlert

datatype error = ValueError

record server_state =
  stress_level :: int
  boss_alert_level :: int
  recent_actions :: "string list"
  combo_count :: "(string \<times> int) list"
  calls :: "effect list"

text \<open>
  Modelled from the spec: \<^verbatim>\<open>ServerState.decrease_stress\<close> lives in \<^verbatim>\<open>core/server.py\<close>,
  which is not among the sources. The spec gives its contract:
  "decreaseStress(amount: non-negative integer): clamps stress to [0,100]".
\<close>

definition decrease_stress :: "int \<Rightarrow> server_state \<Rightarrow> server_state" where
  "decrease_stress amount s =
     s\<lparr>stress_level := max 0 (min 100 (stress_level s - amount)),
       calls := calls s @ [DecreaseStress amount]\<rparr>"

text \<open>
  Modelled from the spec: \<^verbatim>\<open>ServerState.maybe_increase_boss_alert\<close> lives in
  \<^verbatim>\<open>core/server.py\<close>, which is not among the sources. The spec says that it "applies an
  unspecified probabilistic increment to alertLevel" and that the upper bound is kept by
  the primitive itself. The outcome of one attempt is therefore an argument: \<open>bump\<close>
  maps the old level to the new one.
\<close>

definition maybe_increase_boss_alert :: "(int \<Rightarrow> int) \<Rightarrow> server_state \<Rightarrow> server_state" where
  "maybe_increase_boss_alert bump s =
     s\<lparr>boss_alert_level := bump (boss_alert_level s),
       calls := calls s @ [MaybeIncreaseBossAlert]\<rparr>"

text \<open>\<^verbatim>\<open>await asyncio.sleep(n)\<close>: the delay is recorded, nothing else changes.\<close>

definition sleep :: "nat \<Rightarrow> server_state \<Rightarrow> server_state" where
  "sleep n s = s\<lparr>calls := calls s @ [Sleep n]\<rparr>"

text \<open>
  \<^verbatim>\<open>random.randint(a, b)\<close> raises \<^verbatim>\<open>ValueError\<close> on an empty range and otherwise returns
  some integer of \<open>[a, b]\<close>. The choice is made by the environment: \<open>pick\<close> is the
  entropy of one draw.
\<close>

definition randint :: "int \<Rightarrow> int \<Rightarrow> nat \<Rightarrow> error + int" where
  "randint a b pick =
     (if a > b then Inl ValueError else Inr (a + int (pick mod nat (b - a + 1))))"

text \<open>
  What the environment decides during one invocation: the random draw and the outcome
  of the escalation attempt of the common lifecycle (\<open>alert1\<close>) and of the one made by
  the combo detector (\<open>alert2\<close>).
\<close>

record env =
  pick :: nat
  alert1 :: "int \<Rightarrow> int"
  alert2 :: "int \<Rightarrow> int"

subsection \<open>Dictionary and slice primitives\<close>

text \<open>\<^verbatim>\<open>d.get(k, default)\<close>.\<close>

definition dict_get :: "(string \<times> int) list \<Rightarrow> string \<Rightarrow> int \<Rightarrow> int" where
  "dict_get d k dflt = (case map_of d k of None \<Rightarrow> dflt | Some v \<Rightarrow> v)"

text \<open>
  \<^verbatim>\<open>xs[-3:]\<close>: the last three elements, or the whole list when it is shorter. The
  subtraction on \<open>nat\<close> stops at 0, as the slice start does.
\<close>

definition last_three :: "'a list \<Rightarrow> 'a list" where
  "last_three xs = drop (length xs - 3) xs"

text \<open>
  The loop \<^verbatim>\<open>for k in list(combo_count.keys()): if k != tool_name: combo_count[k] = 0\<close>,
  over the snapshot \<open>ks\<close> of the keys.
\<close>

fun reset_others :: "string \<Rightarrow> string list \<Rightarrow> (string \<times> int) list \<Rightarrow> (string \<times> int) list" where
  "reset_others tool_name [] d = d"
| "reset_others tool_name (k # ks) d =
     reset_others tool_name ks (if k \<noteq> tool_name then AList.update k 0 d else d)"

subsection \<open>Initialisation and response formatting\<close>

text \<open>
  \<^verbatim>\<open>initialize_state\<close> receives the state object built elsewhere and adds the two
  fields of the combo system, both empty.
\<close>

definition initialize_state :: "server_state \<Rightarrow> server_state" where
  "initialize_state state = state\<lparr>recent_actions := [], combo_count := []\<rparr>"

text \<open>
  The package \<^verbatim>\<open>creative\<close> is not among the sources; its three rendering functions
  are parameters.
\<close>

record creative =
  get_full_response_message :: "string \<Rightarrow> int \<Rightarrow> string"
  get_stress_bar :: "int \<Rightarrow> string"
  get_boss_alert_visual :: "int \<Rightarrow> string"

definition format_response :: "creative \<Rightarrow> string \<Rightarrow> string \<Rightarrow> server_state \<Rightarrow> string" where
  "format_response cre tool_name summary s =
     (let creative_msg = get_full_response_message cre tool_name (boss_alert_level s);
          stress_bar = get_stress_bar cre (stress_level s);
          boss_visual = get_boss_alert_visual cre (boss_alert_level s)
      in creative_msg @ [CHR 0x0A, CHR 0x0A] @ ''Break Summary: '' @ summary @ [CHR 0x0A]
         @ stress_bar @ [CHR 0x0A] @ ''Boss Alert: '' @ boss_visual)"

section \<open>The hidden combo detector\<close>

text \<open>
  The four messages of \<^verbatim>\<open>check_hidden_combo\<close> are an art constant of the package
  \<^verbatim>\<open>creative\<close>, a newline and a fixed text; each is non-empty, hence true in the test
  \<^verbatim>\<open>if hidden_event\<close>. The model names the message instead of spelling it:
  \<open>Overconsumption\<close> is the stomach-ache message of the coffee branch,
  \<open>MasterRoutine\<close> the one of the bathroom, email, netflix sequence,
  \<open>MemeAddiction\<close> the warning of the meme branch and \<open>Awakening\<close> the one of the
  thinking, coffee, break sequence.
\<close>

datatype hidden_event = Overconsumption | MasterRoutine | MemeAddiction | Awakening

definition check_hidden_combo ::
  "(int \<Rightarrow> int) \<Rightarrow> string \<Rightarrow> server_state \<Rightarrow> hidden_event option \<times> server_state" where
  "check_hidden_combo bump tool_name s =
     (let combo = dict_get (combo_count s) tool_name 0;
          seq = last_three (recent_actions s)
      in if tool_name = ''coffee_mission'' \<and> combo \<ge> 7 then
           (let s1 = decrease_stress 10 s;
                s2 = maybe_increase_boss_alert bump s1;
                s3 = s2\<lparr>combo_count := AList.update tool_name 0 (combo_count s2)\<rparr>
            in (Some Overconsumption, s3))
         else if seq = [''bathroom_break'', ''email_organizing'', ''watch_netflix''] then
           (Some MasterRoutine, decrease_stress 50 s)
         else if tool_name = ''show_meme'' \<and> combo \<ge> 5 then
           (let s1 = maybe_increase_boss_alert bump s;
                s2 = s1\<lparr>combo_count := AList.update tool_name 0 (combo_count s1)\<rparr>
            in (Some MemeAddiction, s2))
         else if seq = [''deep_thinking'', ''coffee_mission'', ''take_a_break''] then
           (let s1 = decrease_stress 100 s;
                s2 = s1\<lparr>stress_level := 0\<rparr>
            in (Some Awakening, s2))
         else (None, s))"

section \<open>The common lifecycle of a break tool\<close>

text \<open>
  The result of \<^verbatim>\<open>execute_break_tool\<close> is the base response and, when a hidden event
  fired, that event, which the source appends to the base response after an empty line.
\<close>

type_synonym response = "string \<times> hidden_event option"

definition execute_break_tool ::
  "creative \<Rightarrow> string \<Rightarrow> string \<Rightarrow> int \<times> int \<Rightarrow> env \<Rightarrow> server_state
     \<Rightarrow> error + (response \<times> server_state)" where
  "execute_break_tool cre tool_name summary stress_reduction e s =
     (let s0 = (if boss_alert_level s \<ge> 5 then sleep 20 s else s)
      in case randint (fst stress_reduction) (snd stress_reduction) (pick e) of
           Inl err \<Rightarrow> Inl err
         | Inr reduction_amount \<Rightarrow>
            (let s1 = decrease_stress reduction_amount s0;
                 s2 = maybe_increase_boss_alert (alert1 e) s1;
                 s3 = s2\<lparr>recent_actions := recent_actions s2 @ [tool_name]\<rparr>;
                 s4 = (if length (recent_actions s3) > 10
                       then s3\<lparr>recent_actions := tl (recent_actions s3)\<rparr> else s3);
                 s5 = (case map_of (combo_count s4) tool_name of
                         None \<Rightarrow> s4\<lparr>combo_count := AList.update tool_name 1 (combo_count s4)\<rparr>
                       | Some c \<Rightarrow> s4\<lparr>combo_count := AList.update tool_name (c + 1) (combo_count s4)\<rparr>);
                 s6 = s5\<lparr>combo_count :=
                          reset_others tool_name (map fst (combo_count s5)) (combo_count s5)\<rparr>;
                 (hidden_event, s7) = check_hidden_combo (alert2 e) tool_name s6;
                 base_response = format_response cre tool_name summary s7
             in Inr ((base_response, hidden_event), s7)))"

subsection \<open>The eight tools\<close>

definition take_a_break :: "creative \<Rightarrow> env \<Rightarrow> server_state \<Rightarrow> error + (response \<times> server_state)" where
  "take_a_break cre =
     execute_break_tool cre ''take_a_break'' ''Basic break - recharging AI batteries'' (5, 20)"

definition watch_netflix :: "creative \<Rightarrow> env \<Rightarrow> server_state \<Rightarrow> error + (response \<times> server_state)" where
  "watch_netflix cre =
     execute_break_tool cre ''watch_netflix'' ''Netflix and chill - quality entertainment time'' (20, 40)"

definition show_meme :: "creative \<Rightarrow> env \<Rightarrow> server_state \<Rightarrow> error + (response \<times> server_state)" where
  "show_meme cre =
     execute_break_tool cre ''show_meme'' ''Meme appreciation session - laughter therapy'' (10, 25)"

definition bathroom_break :: "creative \<Rightarrow> env \<Rightarrow> server_state \<Rightarrow> error + (response \<times> server_state)" where
  "bathroom_break cre =
     execute_break_tool cre ''bathroom_break'' ''Bathroom break with phone browsing'' (15, 30)"

definition coffee_mission :: "creative \<Rightarrow> env \<Rightarrow> server_state \<Rightarrow> error + (response \<times> server_state)" where
  "coffee_mission cre =
     execute_break_tool cre ''coffee_mission'' ''Coffee mission with office tour'' (10, 30)"

definition urgent_call :: "creative \<Rightarrow> env \<Rightarrow> server_state \<Rightarrow> error + (response \<times> server_state)" where
  "urgent_call cre =
     execute_break_tool cre ''urgent_call'' ''Urgent call - absolutely cannot be interrupted'' (15, 35)"

definition deep_thinking :: "creative \<Rightarrow> env \<Rightarrow> server_state \<Rightarrow> error + (response \<times> server_state)" where
  "deep_thinking cre =
     execute_break_tool cre ''deep_thinking''
       ''Deep philosophical contemplation (definitely not spacing out)'' (20, 45)"

definition email_organizing :: "creative \<Rightarrow> env \<Rightarrow> server_state \<Rightarrow> error + (response \<times> server_state)" where
  "email_organizing cre =
     execute_break_tool cre ''email_organizing''
       ''Email organization (and online shopping research)'' (10, 35)"

subsection \<open>Sessions\<close>

text \<open>
  A session is a sequence of invocations on the one state object, each started when
  the one before has returned; an exception ends it. \<open>run\<close> returns the responses in
  order and the final state.
\<close>

fun run :: "(server_state \<Rightarrow> error + (response \<times> server_state)) list \<Rightarrow> server_state
              \<Rightarrow> error + (response list \<times> server_state)" where
  "run [] s = Inr ([], s)"
| "run (f # fs) s =
     (case f s of
        Inl err \<Rightarrow> Inl err
      | Inr (r, s') \<Rightarrow>
         (case run fs s' of
            Inl err \<Rightarrow> Inl err
          | Inr (rs, s'') \<Rightarrow> Inr (r # rs, s'')))"

text \<open>The final state, and its history, of a run that ended without exception.\<close>

definition state_of :: "error + ('a \<times> server_state) \<Rightarrow> server_state option" where
  "state_of res = (case res of Inl err \<Rightarrow> None | Inr (r, s) \<Rightarrow> Some s)"

definition history_of :: "error + ('a \<times> server_state) \<Rightarrow> string list option" where
  "history_of res = map_option recent_actions (state_of res)"

text \<open>The awaited calls made between the state \<open>s\<close> and the later state \<open>s'\<close>.\<close>

definition performed :: "server_state \<Rightarrow> server_state \<Rightarrow> effect list" where
  "performed s s' = drop (length (calls s)) (calls s')"

definition stress_reductions :: "effect list \<Rightarrow> nat" where
  "stress_reductions cs = length (filter (\<lambda>c. case c of DecreaseStress n \<Rightarrow> True | _ \<Rightarrow> False) cs)"

definition alert_attempts :: "effect list \<Rightarrow> nat" where
  "alert_attempts cs = length (filter (\<lambda>c. c = MaybeIncreaseBossAlert) cs)"

definition is_sleep :: "effect \<Rightarrow> bool" where
  "is_sleep c = (case c of Sleep n \<Rightarrow> True | _ \<Rightarrow> False)"

text \<open>The calls made by one invocation that started in \<open>s\<close>, when it returned.\<close>

definition invocation_calls :: "server_state \<Rightarrow> error + ('a \<times> server_state) \<Rightarrow> effect list option" where
  "invocation_calls s res = (case res of Inl err \<Rightarrow> None | Inr (r, s') \<Rightarrow> Some (performed s s'))"

text \<open>
  One invocation as data: tool name, summary, reduction range and what the
  environment decides during it.
\<close>

type_synonym invocation = "string \<times> string \<times> (int \<times> int) \<times> env"

definition invoke :: "creative \<Rightarrow> invocation \<Rightarrow> server_state \<Rightarrow> error + (response \<times> server_state)" where
  "invoke cre = (\<lambda>(tool_name, summary, stress_reduction, e).
                   execute_break_tool cre tool_name summary stress_reduction e)"

text \<open>An invocation that \<open>randint\<close> accepts: its range is not empty.\<close>

definition valid_range :: "invocation \<Rightarrow> bool" where
  "valid_range = (\<lambda>(tool_name, summary, stress_reduction, e).
                    fst stress_reduction \<le> snd stress_reduction)"

subsection \<open>The state in which the detector is called\<close>

text \<open>
  \<open>draw r e\<close> is the amount that \<open>randint\<close> returns on the non-empty range \<open>r\<close>, and
  \<open>booked t r e s\<close> is the state after the steps 1 to 5 of \<open>execute_break_tool\<close>: the
  optional delay, the reduction, the escalation attempt, the history and the combo
  counters. Both are derived from the definition above (lemma
  \<open>execute_break_tool_booked\<close>) and serve to state what a later step starts from.
\<close>

definition draw :: "int \<times> int \<Rightarrow> env \<Rightarrow> int" where
  "draw r e = fst r + int (pick e mod nat (snd r - fst r + 1))"

definition booked :: "string \<Rightarrow> int \<times> int \<Rightarrow> env \<Rightarrow> server_state \<Rightarrow> server_state" where
  "booked t r e s =
     \<lparr>stress_level = max 0 (min 100 (stress_level s - draw r e)),
      boss_alert_level = alert1 e (boss_alert_level s),
      recent_actions = (if length (recent_actions s) \<ge> 10 then tl (recent_actions s @ [t])
                        else recent_actions s @ [t]),
      combo_count = reset_others t
           (map fst (AList.update t (dict_get (combo_count s) t 0 + 1) (combo_count s)))
           (AList.update t (dict_get (combo_count s) t 0 + 1) (combo_count s)),
      calls = calls s @ (if boss_alert_level s \<ge> 5 then [Sleep 20] else [])
                 @ [DecreaseStress (draw r e), MaybeIncreaseBossAlert]\<rparr>"

text \<open>
  The event that the detector returns when it is called in that state, and the state
  that it leaves: the outcome of an invocation with a non-empty range (lemma
  \<open>execute_break_tool_eq\<close>).
\<close>

definition bonus :: "string \<Rightarrow> int \<times> int \<Rightarrow> env \<Rightarrow> server_state \<Rightarrow> hidden_event option" where
  "bonus t r e s = fst (check_hidden_combo (alert2 e) t (booked t r e s))"

definition after :: "string \<Rightarrow> int \<times> int \<Rightarrow> env \<Rightarrow> server_state \<Rightarrow> server_state" where
  "after t r e s = snd (check_hidden_combo (alert2 e) t (booked t r e s))"

subsection \<open>The detector as the specification words it\<close>

text \<open>
  The specification describes the detector as four triggers, each a condition and an
  effect, inspected in a fixed priority order where the first match wins. The
  definitions of this subsection follow those words, not the code; they are compared
  with \<open>check_hidden_combo\<close> below.
\<close>

definition repetition_trigger_A :: "string \<Rightarrow> server_state \<Rightarrow> bool" where
  "repetition_trigger_A action_id s \<longleftrightarrow>
     action_id = ''coffee_mission'' \<and> dict_get (combo_count s) action_id 0 \<ge> 7"

definition sequence_trigger_A :: "server_state \<Rightarrow> bool" where
  "sequence_trigger_A s \<longleftrightarrow>
     last_three (recent_actions s) = [''bathroom_break'', ''email_organizing'', ''watch_netflix'']"

definition repetition_trigger_B :: "string \<Rightarrow> server_state \<Rightarrow> bool" where
  "repetition_trigger_B action_id s \<longleftrightarrow>
     action_id = ''show_meme'' \<and> dict_get (combo_count s) action_id 0 \<ge> 5"

definition sequence_trigger_B :: "server_state \<Rightarrow> bool" where
  "sequence_trigger_B s \<longleftrightarrow>
     last_three (recent_actions s) = [''deep_thinking'', ''coffee_mission'', ''take_a_break'']"

definition reset_streak :: "string \<Rightarrow> server_state \<Rightarrow> server_state" where
  "reset_streak action_id s = s\<lparr>combo_count := AList.update action_id 0 (combo_count s)\<rparr>"

definition force_stress_zero :: "server_state \<Rightarrow> server_state" where
  "force_stress_zero s = s\<lparr>stress_level := 0\<rparr>"

type_synonym trigger = "(server_state \<Rightarrow> bool) \<times> hidden_event \<times> (server_state \<Rightarrow> server_state)"

definition spec_triggers :: "(int \<Rightarrow> int) \<Rightarrow> string \<Rightarrow> trigger list" where
  "spec_triggers bump action_id =
     [(repetition_trigger_A action_id, Overconsumption,
         reset_streak action_id \<circ> maybe_increase_boss_alert bump \<circ> decrease_stress 10),
      (sequence_trigger_A, MasterRoutine, decrease_stress 50),
      (repetition_trigger_B action_id, MemeAddiction,
         reset_streak action_id \<circ> maybe_increase_boss_alert bump),
      (sequence_trigger_B, Awakening, force_stress_zero \<circ> decrease_stress 100)]"

fun first_match :: "trigger list \<Rightarrow> server_state \<Rightarrow> hidden_event option \<times> server_state" where
  "first_match [] s = (None, s)"
| "first_match ((cond, ev, eff) # ts) s =
     (if cond s then (Some ev, eff s) else first_match ts s)"

definition detect_spec :: "(int \<Rightarrow> int) \<Rightarrow> string \<Rightarrow> server_state \<Rightarrow> hidden_event option \<times> server_state" where
  "detect_spec bump action_id s = first_match (spec_triggers bump action_id) s"

subsection \<open>Concrete sessions\<close>

text \<open>
  A renderer, two environments and three states on which the properties are
  evaluated: the start of a session, a state with six coffee missions in a row
  behind it (six draws of 10 from a stress of 100, the coffee counter at 6), and a state
  in which the boss is fully alert.
\<close>

definition plain :: creative where
  "plain = \<lparr>get_full_response_message = (\<lambda>tool_name level. tool_name),
            get_stress_bar = (\<lambda>stress. ''stress''),
            get_boss_alert_visual = (\<lambda>level. ''boss'')\<rparr>"

definition calm :: env where
  "calm = \<lparr>pick = 0, alert1 = (\<lambda>a. a), alert2 = (\<lambda>a. a)\<rparr>"

definition caught :: env where
  "caught = \<lparr>pick = 7, alert1 = (\<lambda>a. min 5 (a + 1)), alert2 = (\<lambda>a. min 5 (a + 1))\<rparr>"

definition session_start :: server_state where
  "session_start = initialize_state
     \<lparr>stress_level = 100, boss_alert_level = 0, recent_actions = [], combo_count = [], calls = []\<rparr>"

definition six_coffees :: server_state where
  "six_coffees =
     \<lparr>stress_level = 40, boss_alert_level = 0,
      recent_actions = replicate 6 ''coffee_mission'',
      combo_count = [(''coffee_mission'', 6)], calls = []\<rparr>"

definition boss_watching :: server_state where
  "boss_watching =
     \<lparr>stress_level = 80, boss_alert_level = 5,
      recent_actions = [''show_meme''],
      combo_count = [(''show_meme'', 1)], calls = []\<rparr>"

section \<open>Auxiliary facts\<close>

lemma map_of_reset_others:
  "map_of (reset_others t ks d) k = (if k \<in> set ks \<and> k \<noteq> t then Some 0 else map_of d k)"
  by (induction ks arbitrary: d) (auto simp: update_conv')

lemma randint_ok:
  "a \<le> b \<Longrightarrow> randint a b p = Inr (a + int (p mod nat (b - a + 1)))"
  by (simp add: randint_def)

lemma draw_range:
  assumes "fst r \<le> snd r"
  shows "fst r \<le> draw r e \<and> draw r e \<le> snd r"
proof -
  have "0 < nat (snd r - fst r + 1)" using assms by simp
  then have "pick e mod nat (snd r - fst r + 1) < nat (snd r - fst r + 1)"
    by (rule mod_less_divisor)
  then have "int (pick e mod nat (snd r - fst r + 1)) < snd r - fst r + 1"
    using assms by linarith
  then show ?thesis by (simp add: draw_def)
qed

text \<open>The steps 1 to 5 of the lifecycle lead to \<open>booked\<close>; step 6 runs the detector there.\<close>

lemma execute_break_tool_booked:
  assumes "fst r \<le> snd r"
  shows "execute_break_tool cre t sm r e s =
            Inr ((format_response cre t sm (snd (check_hidden_combo (alert2 e) t (booked t r e s))),
                  fst (check_hidden_combo (alert2 e) t (booked t r e s))),
                 snd (check_hidden_combo (alert2 e) t (booked t r e s)))"
proof -
  have r: "randint (fst r) (snd r) (pick e) = Inr (draw r e)"
    using assms by (simp add: randint_ok draw_def)
  define s0 where "s0 = (if boss_alert_level s \<ge> 5 then sleep 20 s else s)"
  define s1 where "s1 = decrease_stress (draw r e) s0"
  define s2 where "s2 = maybe_increase_boss_alert (alert1 e) s1"
  define s3 where "s3 = s2\<lparr>recent_actions := recent_actions s2 @ [t]\<rparr>"
  define s4 where "s4 = (if length (recent_actions s3) > 10
                       then s3\<lparr>recent_actions := tl (recent_actions s3)\<rparr> else s3)"
  define s5 where "s5 = (case map_of (combo_count s4) t of
                         None \<Rightarrow> s4\<lparr>combo_count := AList.update t 1 (combo_count s4)\<rparr>
                       | Some c \<Rightarrow> s4\<lparr>combo_count := AList.update t (c + 1) (combo_count s4)\<rparr>)"
  define s6 where "s6 = s5\<lparr>combo_count :=
                          reset_others t (map fst (combo_count s5)) (combo_count s5)\<rparr>"
  have ex: "execute_break_tool cre t sm r e s =
            Inr ((format_response cre t sm (snd (check_hidden_combo (alert2 e) t s6)),
                  fst (check_hidden_combo (alert2 e) t s6)),
                 snd (check_hidden_combo (alert2 e) t s6))"
    unfolding execute_break_tool_def r s6_def s5_def s4_def s3_def s2_def s1_def s0_def Let_def
    by (simp only: sum.case split_beta)
  have f0: "stress_level s0 = stress_level s" "boss_alert_level s0 = boss_alert_level s"
    "recent_actions s0 = recent_actions s" "combo_count s0 = combo_count s"
    "calls s0 = calls s @ (if boss_alert_level s \<ge> 5 then [Sleep 20] else [])"
    by (simp_all add: s0_def sleep_def)
  have f2: "stress_level s2 = max 0 (min 100 (stress_level s - draw r e))"
    "boss_alert_level s2 = alert1 e (boss_alert_level s)"
    "recent_actions s2 = recent_actions s" "combo_count s2 = combo_count s"
    "calls s2 = calls s @ (if boss_alert_level s \<ge> 5 then [Sleep 20] else [])
                 @ [DecreaseStress (draw r e), MaybeIncreaseBossAlert]"
    by (simp_all add: s2_def s1_def decrease_stress_def maybe_increase_boss_alert_def f0)
  have f4: "stress_level s4 = stress_level s2" "boss_alert_level s4 = boss_alert_level s2"
    "recent_actions s4 = (if length (recent_actions s) \<ge> 10 then tl (recent_actions s @ [t])
                        else recent_actions s @ [t])"
    "combo_count s4 = combo_count s" "calls s4 = calls s2"
    by (simp_all add: s4_def s3_def f2)
  have f5: "stress_level s5 = stress_level s4" "boss_alert_level s5 = boss_alert_level s4"
    "recent_actions s5 = recent_actions s4" "calls s5 = calls s4"
    "combo_count s5 = AList.update t (dict_get (combo_count s) t 0 + 1) (combo_count s)"
    by (simp_all add: s5_def f4 dict_get_def split: option.split)
  have "s6 = booked t r e s"
    by (rule server_state.equality) (simp_all add: s6_def booked_def f5 f4 f2)
  with ex show ?thesis by simp
qed

lemma last_three_short: "length xs < 3 \<Longrightarrow> last_three xs = xs"
  by (simp add: last_three_def)

lemma length_last_three: "length (last_three xs) = min 3 (length xs)"
  by (simp add: last_three_def)

text \<open>The detector never touches the history, and it logs the calls of one branch.\<close>

lemma check_hidden_combo_history:
  "recent_actions (snd (check_hidden_combo bump t s)) = recent_actions s"
  by (simp add: check_hidden_combo_def Let_def decrease_stress_def maybe_increase_boss_alert_def)

lemma check_hidden_combo_calls:
  "calls (snd (check_hidden_combo bump t s)) = calls s @
     (case fst (check_hidden_combo bump t s) of
        None \<Rightarrow> []
      | Some Overconsumption \<Rightarrow> [DecreaseStress 10, MaybeIncreaseBossAlert]
      | Some MasterRoutine \<Rightarrow> [DecreaseStress 50]
      | Some MemeAddiction \<Rightarrow> [MaybeIncreaseBossAlert]
      | Some Awakening \<Rightarrow> [DecreaseStress 100])"
  by (simp add: check_hidden_combo_def Let_def decrease_stress_def maybe_increase_boss_alert_def)

lemma booked_combo:
  "map_of (combo_count (booked t r e s)) k =
     (if k = t then Some (dict_get (combo_count s) t 0 + 1)
      else map_option (\<lambda>c. 0) (map_of (combo_count s) k))"
proof -
  let ?d = "AList.update t (dict_get (combo_count s) t 0 + 1) (combo_count s)"
  have keys: "k \<in> set (map fst ?d) \<longleftrightarrow> k = t \<or> map_of (combo_count s) k \<noteq> None"
    by (auto simp: dom_update map_of_eq_None_iff)
  have "map_of (combo_count (booked t r e s)) k =
          (if k \<in> set (map fst ?d) \<and> k \<noteq> t then Some 0 else map_of ?d k)"
    by (simp only: booked_def server_state.simps map_of_reset_others)
  then show ?thesis
    unfolding keys by (cases "map_of (combo_count s) k") (simp_all add: update_conv')
qed

lemma execute_break_tool_returns:
  assumes "fst r \<le> snd r"
    and "P (fst (check_hidden_combo (alert2 e) t (booked t r e s)))
           (snd (check_hidden_combo (alert2 e) t (booked t r e s)))"
  shows "\<exists>resp ev s'. execute_break_tool cre t sm r e s = Inr ((resp, ev), s') \<and> P ev s'"
  using execute_break_tool_booked [OF assms(1), of cre t sm e s] assms(2)
  by (intro exI conjI)

lemma check_hidden_combo_combo:
  "map_of (combo_count (snd (check_hidden_combo bump t s))) k =
     (if k = t \<and> fst (check_hidden_combo bump t s) \<in> {Some Overconsumption, Some MemeAddiction}
      then Some 0 else map_of (combo_count s) k)"
  by (simp add: check_hidden_combo_def Let_def decrease_stress_def maybe_increase_boss_alert_def
      update_conv')

lemma booked_calls:
  "calls (booked t r e s) = calls s @ (if boss_alert_level s \<ge> 5 then [Sleep 20] else [])
                 @ [DecreaseStress (draw r e), MaybeIncreaseBossAlert]"
  by (simp add: booked_def)

lemma executed_calls:
  "performed s (snd (check_hidden_combo bump t (booked t r e s))) =
     (if boss_alert_level s \<ge> 5 then [Sleep 20] else [])
     @ [DecreaseStress (draw r e), MaybeIncreaseBossAlert]
     @ (case fst (check_hidden_combo bump t (booked t r e s)) of
          None \<Rightarrow> []
        | Some Overconsumption \<Rightarrow> [DecreaseStress 10, MaybeIncreaseBossAlert]
        | Some MasterRoutine \<Rightarrow> [DecreaseStress 50]
        | Some MemeAddiction \<Rightarrow> [MaybeIncreaseBossAlert]
        | Some Awakening \<Rightarrow> [DecreaseStress 100])"
  unfolding performed_def check_hidden_combo_calls booked_calls by simp


lemma seventh_coffee_event:
  "fst (check_hidden_combo (alert2 calm) ''coffee_mission''
                (booked ''coffee_mission'' (10, 30) calm six_coffees)) = Some Overconsumption"
proof -
  have "dict_get (combo_count (booked ''coffee_mission'' (10, 30) calm six_coffees))
          ''coffee_mission'' 0 = 7"
    by (simp add: dict_get_def booked_combo six_coffees_def)
  then show ?thesis
    by (simp add: check_hidden_combo_def Let_def)
qed

lemma seventh_coffee:
  "invocation_calls six_coffees (coffee_mission plain calm six_coffees) =
     Some [DecreaseStress 10, MaybeIncreaseBossAlert, DecreaseStress 10, MaybeIncreaseBossAlert]"
proof -
  have h: "fst (10, 30) \<le> snd (10 :: int, 30 :: int)" by simp
  have d: "draw (10, 30) calm = 10" by (simp add: draw_def calm_def)
  have b: "\<not> 5 \<le> boss_alert_level six_coffees" by (simp add: six_coffees_def)
  show ?thesis
    unfolding coffee_mission_def execute_break_tool_booked [OF h] invocation_calls_def
    by (simp add: executed_calls seventh_coffee_event d b)
qed


lemma last_three_tl:
  assumes "length xs > 3"
  shows "last_three (tl xs) = last_three xs"
proof -
  obtain x ys where xs: "xs = x # ys" using assms by (cases xs) auto
  have "length xs - 3 = Suc (length ys - 3)" using assms xs by simp
  then show ?thesis by (simp add: last_three_def xs)
qed

lemma last_three_absorb: "last_three (last_three xs @ ys) = last_three (xs @ ys)"
  by (cases "length xs \<le> 3") (simp_all add: last_three_def add.commute)

lemma last_three_snoc3: "last_three (w @ [a, b, c]) = [a, b, c]"
  by (simp add: last_three_def)

lemma last_three_last:
  assumes "last_three (xs @ [t]) = [a, b, c]"
  shows "c = t"
proof -
  have "length xs + 1 - 3 < length (xs @ [t])" by simp
  then have "last (drop (length xs + 1 - 3) (xs @ [t])) = last (xs @ [t])"
    by (rule last_drop)
  with assms show ?thesis by (simp add: last_three_def)
qed

lemma booked_streak:
  "dict_get (combo_count (booked t r e s)) t 0 = dict_get (combo_count s) t 0 + 1"
  by (simp add: dict_get_def booked_combo)

lemma booked_window:
  "last_three (recent_actions (booked t r e s)) = last_three (recent_actions s @ [t])"
  by (simp add: booked_def last_three_tl)

lemma booked_event:
  "fst (check_hidden_combo bump t (booked t r e s)) =
     (if t = ''coffee_mission'' \<and> dict_get (combo_count s) t 0 + 1 \<ge> 7 then Some Overconsumption
      else if last_three (recent_actions s @ [t]) = [''bathroom_break'', ''email_organizing'', ''watch_netflix'']
        then Some MasterRoutine
      else if t = ''show_meme'' \<and> dict_get (combo_count s) t 0 + 1 \<ge> 5 then Some MemeAddiction
      else if last_three (recent_actions s @ [t]) = [''deep_thinking'', ''coffee_mission'', ''take_a_break'']
        then Some Awakening
      else None)"
  unfolding check_hidden_combo_def Let_def booked_streak booked_window
  by (simp only: if_distrib [of fst] fst_conv)

subsection \<open>The outcome of one invocation\<close>

lemma execute_break_tool_eq:
  "fst r \<le> snd r \<Longrightarrow> execute_break_tool cre t sm r e s =
     Inr ((format_response cre t sm (after t r e s), bonus t r e s), after t r e s)"
  unfolding after_def bonus_def by (rule execute_break_tool_booked)

lemma bonus_eq:
  "bonus t r e s =
     (if t = ''coffee_mission'' \<and> dict_get (combo_count s) t 0 + 1 \<ge> 7 then Some Overconsumption
      else if last_three (recent_actions s @ [t]) = [''bathroom_break'', ''email_organizing'', ''watch_netflix'']
        then Some MasterRoutine
      else if t = ''show_meme'' \<and> dict_get (combo_count s) t 0 + 1 \<ge> 5 then Some MemeAddiction
      else if last_three (recent_actions s @ [t]) = [''deep_thinking'', ''coffee_mission'', ''take_a_break'']
        then Some Awakening
      else None)"
  unfolding bonus_def by (rule booked_event)

lemma after_history:
  "recent_actions (after t r e s) =
     (if 10 \<le> length (recent_actions s) then tl (recent_actions s @ [t]) else recent_actions s @ [t])"
  by (simp add: after_def check_hidden_combo_history booked_def)

lemma after_window:
  "last_three (recent_actions (after t r e s)) = last_three (recent_actions s @ [t])"
  by (simp add: after_def check_hidden_combo_history booked_window)

lemma after_others:
  "k \<noteq> t \<Longrightarrow> dict_get (combo_count (after t r e s)) k 0 = 0"
  by (cases "map_of (combo_count s) k")
     (simp_all add: after_def dict_get_def check_hidden_combo_combo booked_combo)

lemma after_own:
  "dict_get (combo_count (after t r e s)) t 0 =
     (if bonus t r e s \<in> {Some Overconsumption, Some MemeAddiction} then 0
      else dict_get (combo_count s) t 0 + 1)"
  by (simp add: after_def bonus_def dict_get_def check_hidden_combo_combo booked_combo)

lemma after_calls:
  "performed s (after t r e s) =
     (if boss_alert_level s \<ge> 5 then [Sleep 20] else [])
     @ [DecreaseStress (draw r e), MaybeIncreaseBossAlert]
     @ (case bonus t r e s of
          None \<Rightarrow> []
        | Some Overconsumption \<Rightarrow> [DecreaseStress 10, MaybeIncreaseBossAlert]
        | Some MasterRoutine \<Rightarrow> [DecreaseStress 50]
        | Some MemeAddiction \<Rightarrow> [MaybeIncreaseBossAlert]
        | Some Awakening \<Rightarrow> [DecreaseStress 100])"
  unfolding after_def bonus_def by (rule executed_calls)

lemma check_hidden_combo_stress:
  "stress_level (snd (check_hidden_combo bump t s)) =
     (case fst (check_hidden_combo bump t s) of
        None \<Rightarrow> stress_level s
      | Some Overconsumption \<Rightarrow> max 0 (min 100 (stress_level s - 10))
      | Some MasterRoutine \<Rightarrow> max 0 (min 100 (stress_level s - 50))
      | Some MemeAddiction \<Rightarrow> stress_level s
      | Some Awakening \<Rightarrow> 0)"
  by (simp add: check_hidden_combo_def Let_def decrease_stress_def maybe_increase_boss_alert_def)

lemma check_hidden_combo_alert:
  "boss_alert_level (snd (check_hidden_combo bump t s)) =
     (if fst (check_hidden_combo bump t s) \<in> {Some Overconsumption, Some MemeAddiction}
      then bump (boss_alert_level s) else boss_alert_level s)"
  by (simp add: check_hidden_combo_def Let_def decrease_stress_def maybe_increase_boss_alert_def)

lemma booked_stress:
  "stress_level (booked t r e s) = max 0 (min 100 (stress_level s - draw r e))"
  by (simp add: booked_def)

lemma booked_alert:
  "boss_alert_level (booked t r e s) = alert1 e (boss_alert_level s)"
  by (simp add: booked_def)

lemma after_stress:
  "stress_level (after t r e s) =
     (case bonus t r e s of
        None \<Rightarrow> max 0 (min 100 (stress_level s - draw r e))
      | Some Overconsumption \<Rightarrow> max 0 (min 100 (max 0 (min 100 (stress_level s - draw r e)) - 10))
      | Some MasterRoutine \<Rightarrow> max 0 (min 100 (max 0 (min 100 (stress_level s - draw r e)) - 50))
      | Some MemeAddiction \<Rightarrow> max 0 (min 100 (stress_level s - draw r e))
      | Some Awakening \<Rightarrow> 0)"
  unfolding after_def bonus_def check_hidden_combo_stress booked_stress by (rule refl)

lemma after_alert:
  "boss_alert_level (after t r e s) =
     (if bonus t r e s \<in> {Some Overconsumption, Some MemeAddiction}
      then alert2 e (alert1 e (boss_alert_level s)) else alert1 e (boss_alert_level s))"
  unfolding after_def bonus_def check_hidden_combo_alert booked_alert by (rule refl)

lemma history_step:
  assumes "length h \<le> 10"
  shows "drop (length ((if 10 \<le> length h then tl (h @ [t]) else h @ [t]) @ ts) - 10)
              ((if 10 \<le> length h then tl (h @ [t]) else h @ [t]) @ ts)
         = drop (length (h @ t # ts) - 10) (h @ t # ts)"
proof (cases "10 \<le> length h")
  case True
  then obtain x ys where h: "h = x # ys" by (cases h) auto
  with True assms have "length ys = 9" by simp
  then show ?thesis using True by (simp add: h)
next
  case False
  then show ?thesis by simp
qed

lemma run_history:
  assumes "list_all valid_range cs" and "length (recent_actions s) \<le> 10"
  shows "\<exists>rs s'. run (map (invoke cre) cs) s = Inr (rs, s')
           \<and> length rs = length cs
           \<and> recent_actions s' =
               drop (length (recent_actions s @ map fst cs) - 10) (recent_actions s @ map fst cs)"
  using assms
proof (induction cs arbitrary: s)
  case Nil
  then show ?case by simp
next
  case (Cons c cs)
  obtain t sm r e where c: "c = (t, sm, r, e)" by (cases c) auto
  from Cons.prems c have r: "fst r \<le> snd r" and rest: "list_all valid_range cs"
    by (simp_all add: valid_range_def)
  let ?s1 = "after t r e s"
  have len: "length (recent_actions ?s1) \<le> 10"
    using Cons.prems(2) by (simp add: after_history)
  from Cons.IH [OF rest len] obtain rs s' where
    run: "run (map (invoke cre) cs) ?s1 = Inr (rs, s')" and n: "length rs = length cs"
    and h: "recent_actions s' =
        drop (length (recent_actions ?s1 @ map fst cs) - 10) (recent_actions ?s1 @ map fst cs)"
    by blast
  have step: "invoke cre c s = Inr ((format_response cre t sm ?s1, bonus t r e s), ?s1)"
    by (simp add: invoke_def c execute_break_tool_eq [OF r])
  have "recent_actions s' =
      drop (length (recent_actions s @ t # map fst cs) - 10) (recent_actions s @ t # map fst cs)"
    unfolding h after_history by (rule history_step [OF Cons.prems(2)])
  then show ?case
    using run n step by (simp add: c)
qed

subsection \<open>The window of the last three actions\<close>

lemma window_not_ending:
  "c \<noteq> t \<Longrightarrow> last_three (h @ [t]) \<noteq> [a, b, c]"
  using last_three_last [of h t a b c] by auto

lemma window_three:
  "last_three (recent_actions (after t2 r2 e2 (after t1 r1 e1 s)) @ [t3]) = [t1, t2, t3]"
proof -
  let ?s1 = "after t1 r1 e1 s" and ?s2 = "after t2 r2 e2 (after t1 r1 e1 s)"
  have "last_three (recent_actions ?s2 @ [t3]) = last_three (last_three (recent_actions ?s2) @ [t3])"
    by (simp only: last_three_absorb)
  also have "\<dots> = last_three (recent_actions ?s1 @ [t2, t3])"
    by (simp add: after_window last_three_absorb)
  also have "\<dots> = last_three (last_three (recent_actions ?s1) @ [t2, t3])"
    by (simp only: last_three_absorb)
  also have "\<dots> = last_three (recent_actions s @ [t1, t2, t3])"
    by (simp add: after_window last_three_absorb)
  finally show ?thesis by (simp only: last_three_snoc3)
qed

lemma after_calls_append:
  "calls (after t r e s) = calls s @ performed s (after t r e s)"
  unfolding performed_def after_def check_hidden_combo_calls booked_calls by simp

subsection \<open>Runs of one tool\<close>

lemma take_a_break_invoke:
  "take_a_break cre e = invoke cre (''take_a_break'', ''Basic break - recharging AI batteries'', (5, 20), e)"
  by (simp add: take_a_break_def invoke_def)

lemma coffee_step:
  "coffee_mission cre e s =
     Inr ((format_response cre ''coffee_mission'' ''Coffee mission with office tour''
             (after ''coffee_mission'' (10, 30) e s),
           bonus ''coffee_mission'' (10, 30) e s),
          after ''coffee_mission'' (10, 30) e s)"
  by (simp add: coffee_mission_def execute_break_tool_eq)

lemma coffee_bonus:
  "bonus ''coffee_mission'' r e s =
     (if dict_get (combo_count s) ''coffee_mission'' 0 + 1 \<ge> 7 then Some Overconsumption else None)"
  by (simp add: bonus_eq window_not_ending)

lemma coffee_run:
  assumes "dict_get (combo_count s) ''coffee_mission'' 0 = int c" and "c < 7"
  shows "\<exists>rs s'. run (map (coffee_mission cre) es) s = Inr (rs, s')
           \<and> map snd rs = map (\<lambda>i. if 7 dvd (c + i + 1) then Some Overconsumption else None)
                             [0..<length es]
           \<and> dict_get (combo_count s') ''coffee_mission'' 0 = int ((c + length es) mod 7)"
  using assms
proof (induction es arbitrary: s c)
  case Nil
  then show ?case by simp
next
  case (Cons e es)
  let ?s1 = "after ''coffee_mission'' (10, 30) e s"
  let ?c1 = "(c + 1) mod 7"
  have d7: "7 dvd (c + 1) \<longleftrightarrow> c = 6"
    using Cons.prems(2) by presburger
  have m7: "(c + 1) mod 7 = (if c = 6 then 0 else c + 1)"
    using Cons.prems(2) by simp
  have ge: "7 \<le> int c + 1 \<longleftrightarrow> c = 6"
    using Cons.prems(2) by linarith
  have b: "bonus ''coffee_mission'' (10, 30) e s =
             (if 7 dvd (c + 1) then Some Overconsumption else None)"
    unfolding coffee_bonus Cons.prems(1) d7 ge by (rule refl)
  have c1: "dict_get (combo_count ?s1) ''coffee_mission'' 0 = int ?c1"
    unfolding after_own b Cons.prems(1) d7 m7 by simp
  have lt: "?c1 < 7" by simp
  from Cons.IH [OF c1 lt] obtain rs s' where
    run: "run (map (coffee_mission cre) es) ?s1 = Inr (rs, s')"
    and ev: "map snd rs = map (\<lambda>i. if 7 dvd (?c1 + i + 1) then Some Overconsumption else None)
                             [0..<length es]"
    and fin: "dict_get (combo_count s') ''coffee_mission'' 0 = int ((?c1 + length es) mod 7)"
    by blast
  have dv: "7 dvd ((c + 1) mod 7 + i + 1) \<longleftrightarrow> 7 dvd (c + Suc i + 1)" for i
    by presburger
  have ev': "map snd rs = map (\<lambda>i. if 7 dvd (c + Suc i + 1) then Some Overconsumption else None)
                             [0..<length es]"
    unfolding ev by (simp only: dv)
  have up: "[0..<length (e # es)] = 0 # map Suc [0..<length es]"
    by (simp add: upt_conv_Cons map_Suc_upt del: upt_Suc)
  have fin': "dict_get (combo_count s') ''coffee_mission'' 0 = int ((c + length (e # es)) mod 7)"
    unfolding fin by (simp add: mod_simps)
  have "run (map (coffee_mission cre) (e # es)) s =
          Inr ((format_response cre ''coffee_mission'' ''Coffee mission with office tour'' ?s1,
                bonus ''coffee_mission'' (10, 30) e s) # rs, s')"
    by (simp add: coffee_step run)
  moreover have "map snd ((format_response cre ''coffee_mission'' ''Coffee mission with office tour'' ?s1,
                bonus ''coffee_mission'' (10, 30) e s) # rs) =
       map (\<lambda>i. if 7 dvd (c + i + 1) then Some Overconsumption else None) [0..<length (e # es)]"
    unfolding up by (simp add: b ev' comp_def)
  ultimately show ?case using fin' by blast
qed

lemma every_seventh_of_fourteen:
  "map (\<lambda>i. if 7 dvd (i + 1) then Some Overconsumption else None) [0..<14 :: nat]
     = [None, None, None, None, None, None, Some Overconsumption,
        None, None, None, None, None, None, Some Overconsumption]"
  by code_simp

section \<open>The pattern detector\<close>

text \<open>
  Claim C8. The detector inspects its four triggers in the fixed priority order
  caffeine repetition, bathroom/email/video sequence, meme repetition,
  thinking/caffeine/break sequence, and the first one whose condition holds decides:
  \<open>check_hidden_combo\<close> is the first-match evaluation of the ordered trigger list of the
  specification. Hence the calls it makes are those of one branch at most.
\<close>

theorem detector_first_match_wins:
  "check_hidden_combo bump tool_name s = detect_spec bump tool_name s
   \<and> performed s (snd (check_hidden_combo bump tool_name s))
       \<in> {[], [DecreaseStress 10, MaybeIncreaseBossAlert], [DecreaseStress 50],
           [MaybeIncreaseBossAlert], [DecreaseStress 100]}"
proof
  show "check_hidden_combo bump tool_name s = detect_spec bump tool_name s"
    by (auto simp: check_hidden_combo_def detect_spec_def spec_triggers_def Let_def
        repetition_trigger_A_def repetition_trigger_B_def sequence_trigger_A_def
        sequence_trigger_B_def reset_streak_def force_stress_zero_def
        decrease_stress_def maybe_increase_boss_alert_def)
  show "performed s (snd (check_hidden_combo bump tool_name s))
       \<in> {[], [DecreaseStress 10, MaybeIncreaseBossAlert], [DecreaseStress 50],
           [MaybeIncreaseBossAlert], [DecreaseStress 100]}"
    unfolding performed_def check_hidden_combo_calls
    by (simp split: option.split hidden_event.split)
qed

text \<open>
  Claim C9. While the history holds fewer than three entries, the slice of its last
  three entries is the whole history, shorter than any triple, and neither sequence
  bonus is returned. In particular an invocation that starts with fewer than two
  entries, as the first two of a session do, returns neither of them.
\<close>

theorem short_history_no_sequence_bonus:
  "(length (recent_actions s) < 3 \<longrightarrow>
      last_three (recent_actions s) = recent_actions s
      \<and> fst (check_hidden_combo bump tool_name s) \<noteq> Some MasterRoutine
      \<and> fst (check_hidden_combo bump tool_name s) \<noteq> Some Awakening)
   \<and> (fst r \<le> snd r \<and> length (recent_actions s) < 2 \<longrightarrow>
      (\<exists>resp ev s'. execute_break_tool cre tool_name summary r e s = Inr ((resp, ev), s')
          \<and> length (recent_actions s') < 3
          \<and> ev \<noteq> Some MasterRoutine \<and> ev \<noteq> Some Awakening))"
proof (intro conjI impI)
  assume short: "length (recent_actions s) < 3"
  show "last_three (recent_actions s) = recent_actions s"
    using short by (rule last_three_short)
  have ne: "length (last_three (recent_actions s)) \<noteq> 3"
    using short by (simp add: length_last_three)
  have a: "last_three (recent_actions s) \<noteq> [''bathroom_break'', ''email_organizing'', ''watch_netflix'']"
    and b: "last_three (recent_actions s) \<noteq> [''deep_thinking'', ''coffee_mission'', ''take_a_break'']"
    using ne by auto
  show "fst (check_hidden_combo bump tool_name s) \<noteq> Some MasterRoutine"
    using a by (simp add: check_hidden_combo_def Let_def)
  show "fst (check_hidden_combo bump tool_name s) \<noteq> Some Awakening"
    using b by (simp add: check_hidden_combo_def Let_def)
next
  assume h: "fst r \<le> snd r \<and> length (recent_actions s) < 2"
  let ?b = "booked tool_name r e s"
  have len: "length (recent_actions ?b) < 3"
    using h by (simp add: booked_def)
  then have ne: "length (last_three (recent_actions ?b)) \<noteq> 3"
    by (simp add: length_last_three)
  have a: "last_three (recent_actions ?b) \<noteq> [''bathroom_break'', ''email_organizing'', ''watch_netflix'']"
    and b: "last_three (recent_actions ?b) \<noteq> [''deep_thinking'', ''coffee_mission'', ''take_a_break'']"
    using ne by auto
  have 1: "fst (check_hidden_combo (alert2 e) tool_name ?b) \<noteq> Some MasterRoutine"
    using a by (simp add: check_hidden_combo_def Let_def)
  have 2: "fst (check_hidden_combo (alert2 e) tool_name ?b) \<noteq> Some Awakening"
    using b by (simp add: check_hidden_combo_def Let_def)
  from h have "fst r \<le> snd r" by simp
  from execute_break_tool_booked [OF this] 1 2 len
  show "\<exists>resp ev s'. execute_break_tool cre tool_name summary r e s = Inr ((resp, ev), s')
          \<and> length (recent_actions s') < 3
          \<and> ev \<noteq> Some MasterRoutine \<and> ev \<noteq> Some Awakening"
    by (simp add: check_hidden_combo_history)
qed

text \<open>
  Claim C10. When none of the four conditions holds, the detector returns no event
  and the state it was given, unchanged in every field; no call is logged either.
\<close>

theorem detector_no_match_frame:
  assumes "\<not> (tool_name = ''coffee_mission'' \<and> dict_get (combo_count s) tool_name 0 \<ge> 7)"
    and "last_three (recent_actions s) \<noteq> [''bathroom_break'', ''email_organizing'', ''watch_netflix'']"
    and "\<not> (tool_name = ''show_meme'' \<and> dict_get (combo_count s) tool_name 0 \<ge> 5)"
    and "last_three (recent_actions s) \<noteq> [''deep_thinking'', ''coffee_mission'', ''take_a_break'']"
  shows "check_hidden_combo bump tool_name s = (None, s)"
  using assms unfolding check_hidden_combo_def Let_def by (simp only: if_False)

theorem detector_no_match_frame_witness:
  "\<not> (''urgent_call'' = ''coffee_mission'' \<and> dict_get (combo_count boss_watching) ''urgent_call'' 0 \<ge> 7)
   \<and> last_three (recent_actions boss_watching) \<noteq> [''bathroom_break'', ''email_organizing'', ''watch_netflix'']
   \<and> \<not> (''urgent_call'' = ''show_meme'' \<and> dict_get (combo_count boss_watching) ''urgent_call'' 0 \<ge> 5)
   \<and> last_three (recent_actions boss_watching) \<noteq> [''deep_thinking'', ''coffee_mission'', ''take_a_break'']
   \<and> check_hidden_combo (\<lambda>a. a + 1) ''urgent_call'' boss_watching = (None, boss_watching)"
  using detector_no_match_frame [of "''urgent_call''" boss_watching "\<lambda>a. a + 1"]
  by (simp add: boss_watching_def last_three_def)

theorem detector_first_match_wins_witness:
  "check_hidden_combo (\<lambda>a. a + 1) ''coffee_mission'' six_coffees
     = detect_spec (\<lambda>a. a + 1) ''coffee_mission'' six_coffees
   \<and> performed six_coffees (snd (check_hidden_combo (\<lambda>a. a + 1) ''coffee_mission'' six_coffees))
       \<in> {[], [DecreaseStress 10, MaybeIncreaseBossAlert], [DecreaseStress 50],
           [MaybeIncreaseBossAlert], [DecreaseStress 100]}"
  by (rule detector_first_match_wins [of "\<lambda>a. a + 1" "''coffee_mission''" six_coffees])

theorem short_history_no_sequence_bonus_witness:
  "length (recent_actions session_start) < 3
   \<and> last_three (recent_actions session_start) = recent_actions session_start
   \<and> fst (check_hidden_combo (\<lambda>a. a) ''take_a_break'' session_start) \<noteq> Some MasterRoutine
   \<and> fst (check_hidden_combo (\<lambda>a. a) ''take_a_break'' session_start) \<noteq> Some Awakening
   \<and> fst (5, 20) \<le> snd (5 :: int, 20 :: int)
   \<and> length (recent_actions session_start) < 2
   \<and> (\<exists>resp ev s'. execute_break_tool plain ''take_a_break''
                        ''Basic break - recharging AI batteries'' (5, 20) calm session_start
                      = Inr ((resp, ev), s')
          \<and> length (recent_actions s') < 3
          \<and> ev \<noteq> Some MasterRoutine \<and> ev \<noteq> Some Awakening)"
proof -
  have h: "length (recent_actions session_start) < 3" "length (recent_actions session_start) < 2"
    "fst (5, 20) \<le> snd (5 :: int, 20 :: int)"
    by (simp_all add: session_start_def initialize_state_def)
  from short_history_no_sequence_bonus [of session_start "\<lambda>a. a" "''take_a_break''" "(5, 20)"
      plain "''Basic break - recharging AI batteries''" calm] h
  show ?thesis by simp
qed

section \<open>One invocation\<close>

text \<open>
  Claim C1, as amended. An invocation with a non-empty reduction range returns, and
  the common lifecycle makes one stress reduction and one alert-escalation attempt in
  it. The detector adds a second stress reduction when the overconsumption, the
  master-routine or the awakening bonus fires, and a second escalation attempt when the
  overconsumption or the meme-addiction bonus fires. So there is exactly one of each
  when no bonus fires, and never more than two.
\<close>

theorem calls_per_invocation:
  assumes "fst r \<le> snd r"
  shows "\<exists>resp ev s'. execute_break_tool cre tool_name summary r e s = Inr ((resp, ev), s')
           \<and> stress_reductions (performed s s') =
               (if ev \<in> {Some Overconsumption, Some MasterRoutine, Some Awakening} then 2 else 1)
           \<and> alert_attempts (performed s s') =
               (if ev \<in> {Some Overconsumption, Some MemeAddiction} then 2 else 1)"
proof -
  let ?c = "check_hidden_combo (alert2 e) tool_name (booked tool_name r e s)"
  have 1: "stress_reductions (performed s (snd ?c)) =
               (if fst ?c \<in> {Some Overconsumption, Some MasterRoutine, Some Awakening} then 2 else 1)"
    unfolding executed_calls stress_reductions_def
    by (simp split: option.split hidden_event.split)
  have 2: "alert_attempts (performed s (snd ?c)) =
               (if fst ?c \<in> {Some Overconsumption, Some MemeAddiction} then 2 else 1)"
    unfolding executed_calls alert_attempts_def
    by (simp split: option.split hidden_event.split)
  show ?thesis
    by (rule execute_break_tool_returns [OF assms]) (simp only: 1 2 simp_thms)
qed



theorem calls_per_invocation_witness:
  "fst (10, 30) \<le> snd (10 :: int, 30 :: int)
   \<and> (\<exists>resp ev s'. execute_break_tool plain ''coffee_mission'' ''Coffee mission with office tour''
                       (10, 30) calm six_coffees = Inr ((resp, ev), s')
           \<and> stress_reductions (performed six_coffees s') =
               (if ev \<in> {Some Overconsumption, Some MasterRoutine, Some Awakening} then 2 else 1)
           \<and> alert_attempts (performed six_coffees s') =
               (if ev \<in> {Some Overconsumption, Some MemeAddiction} then 2 else 1))"
proof -
  have h: "fst (10, 30) \<le> snd (10 :: int, 30 :: int)" by simp
  show ?thesis
    by (rule conjI [OF h calls_per_invocation [OF h, of plain "''coffee_mission''"
      "''Coffee mission with office tour''" calm six_coffees]])
qed

text \<open>
  The claim C1 as the specification words it fails on the seventh coffee mission in a
  row: that one invocation makes two stress reductions and two escalation attempts.
\<close>

theorem seventh_coffee_calls_twice:
  "map_option stress_reductions (invocation_calls six_coffees (coffee_mission plain calm six_coffees)) = Some 2
   \<and> map_option alert_attempts (invocation_calls six_coffees (coffee_mission plain calm six_coffees)) = Some 2"
  unfolding seventh_coffee by (simp add: stress_reductions_def alert_attempts_def)

text \<open>
  Claim C5. After an invocation, every key of the combo dictionary other than the
  tool just invoked reads 0, whatever it read before; so the counter of the tool
  invoked before a different one is reset. The counter of the tool itself is its
  former value plus one, or 0 when a repetition bonus fired.
\<close>

theorem streaks_mutually_exclusive:
  assumes "fst r \<le> snd r"
  shows "\<exists>resp ev s'. execute_break_tool cre tool_name summary r e s = Inr ((resp, ev), s')
           \<and> (\<forall>k. k \<noteq> tool_name \<longrightarrow> dict_get (combo_count s') k 0 = 0)
           \<and> dict_get (combo_count s') tool_name 0 =
               (if ev \<in> {Some Overconsumption, Some MemeAddiction} then 0
                else dict_get (combo_count s) tool_name 0 + 1)"
proof -
  let ?c = "check_hidden_combo (alert2 e) tool_name (booked tool_name r e s)"
  have others: "dict_get (combo_count (snd ?c)) k 0 = 0" if "k \<noteq> tool_name" for k
    using that
    by (cases "map_of (combo_count s) k")
       (simp_all add: dict_get_def check_hidden_combo_combo booked_combo)
  have own: "dict_get (combo_count (snd ?c)) tool_name 0 =
               (if fst ?c \<in> {Some Overconsumption, Some MemeAddiction} then 0
                else dict_get (combo_count s) tool_name 0 + 1)"
    by (simp add: dict_get_def check_hidden_combo_combo booked_combo)
  show ?thesis
    by (rule execute_break_tool_returns [OF assms]) (simp add: others own)
qed


theorem streaks_mutually_exclusive_witness:
  "fst (10, 30) \<le> snd (10 :: int, 30 :: int)
   \<and> (\<exists>resp ev s'. execute_break_tool plain ''coffee_mission'' ''Coffee mission with office tour''
                       (10, 30) calm boss_watching = Inr ((resp, ev), s')
           \<and> (\<forall>k. k \<noteq> ''coffee_mission'' \<longrightarrow> dict_get (combo_count s') k 0 = 0)
           \<and> dict_get (combo_count s') ''coffee_mission'' 0 =
               (if ev \<in> {Some Overconsumption, Some MemeAddiction} then 0
                else dict_get (combo_count boss_watching) ''coffee_mission'' 0 + 1))"
proof -
  have h: "fst (10, 30) \<le> snd (10 :: int, 30 :: int)" by simp
  show ?thesis
    by (rule conjI [OF h streaks_mutually_exclusive [OF h, of plain "''coffee_mission''"
      "''Coffee mission with office tour''" calm boss_watching]])
qed


text \<open>
  Claim C6. An invocation that starts with an alert level of at least 5 awaits
  \<open>sleep 20\<close> before any other awaited call; one that starts below 5 awaits no sleep at
  all. In both cases the rest of the invocation contains no sleep.
\<close>

theorem delay_iff_alert_at_least_five:
  assumes "fst r \<le> snd r"
  shows "\<exists>resp ev s' rest. execute_break_tool cre tool_name summary r e s = Inr ((resp, ev), s')
           \<and> performed s s' = (if boss_alert_level s \<ge> 5 then [Sleep 20] else []) @ rest
           \<and> filter is_sleep rest = []"
proof -
  let ?c = "check_hidden_combo (alert2 e) tool_name (booked tool_name r e s)"
  let ?rest = "[DecreaseStress (draw r e), MaybeIncreaseBossAlert]
     @ (case fst ?c of
          None \<Rightarrow> []
        | Some Overconsumption \<Rightarrow> [DecreaseStress 10, MaybeIncreaseBossAlert]
        | Some MasterRoutine \<Rightarrow> [DecreaseStress 50]
        | Some MemeAddiction \<Rightarrow> [MaybeIncreaseBossAlert]
        | Some Awakening \<Rightarrow> [DecreaseStress 100])"
  have 1: "performed s (snd ?c) = (if boss_alert_level s \<ge> 5 then [Sleep 20] else []) @ ?rest"
    by (rule executed_calls)
  have 2: "filter is_sleep ?rest = []"
    by (simp add: is_sleep_def split: option.split hidden_event.split)
  have "\<exists>rest. performed s (snd ?c) = (if boss_alert_level s \<ge> 5 then [Sleep 20] else []) @ rest
           \<and> filter is_sleep rest = []"
    using 1 2 by (intro exI conjI)
  then have "\<exists>resp ev s'. execute_break_tool cre tool_name summary r e s = Inr ((resp, ev), s')
           \<and> (\<exists>rest. performed s s' = (if boss_alert_level s \<ge> 5 then [Sleep 20] else []) @ rest
           \<and> filter is_sleep rest = [])"
    by (rule execute_break_tool_returns [OF assms])
  then show ?thesis by (elim exE conjE) (intro exI conjI)
qed


theorem delay_iff_alert_at_least_five_witness:
  "fst (10, 25) \<le> snd (10 :: int, 25 :: int)
   \<and> (\<exists>resp ev s' rest. execute_break_tool plain ''show_meme''
                             ''Meme appreciation session - laughter therapy'' (10, 25) caught boss_watching
                           = Inr ((resp, ev), s')
           \<and> performed boss_watching s' =
                (if boss_alert_level boss_watching \<ge> 5 then [Sleep 20] else []) @ rest
           \<and> filter is_sleep rest = [])
   \<and> (\<exists>resp ev s' rest. execute_break_tool plain ''show_meme''
                             ''Meme appreciation session - laughter therapy'' (10, 25) caught session_start
                           = Inr ((resp, ev), s')
           \<and> performed session_start s' =
                (if boss_alert_level session_start \<ge> 5 then [Sleep 20] else []) @ rest
           \<and> filter is_sleep rest = [])"
proof -
  have h: "fst (10, 25) \<le> snd (10 :: int, 25 :: int)" by simp
  show ?thesis
    by (intro conjI h
        delay_iff_alert_at_least_five [OF h, of plain "''show_meme''"
          "''Meme appreciation session - laughter therapy''" caught boss_watching]
        delay_iff_alert_at_least_five [OF h, of plain "''show_meme''"
          "''Meme appreciation session - laughter therapy''" caught session_start])
qed

section \<open>Sessions of several invocations\<close>

text \<open>
  Claim C2. When the coffee counter reads 0 (a new session, or after any other
  tool, or right after the bonus), a run of consecutive coffee missions returns the
  overconsumption bonus on exactly the 7th, 14th, ... call and on no other, and the
  counter after the run is the number of calls modulo 7: the 7th call resets it, and
  the 8th does not fire. The call that fires (the counter read 6 before it) makes,
  after the two calls of the common lifecycle, a further stress decrease of 10 and a
  further escalation attempt, and leaves the counter at 0.
\<close>

theorem coffee_overconsumption_every_seventh:
  "(dict_get (combo_count s) ''coffee_mission'' 0 = 0 \<longrightarrow>
      (\<exists>rs s'. run (map (coffee_mission cre) es) s = Inr (rs, s')
           \<and> map snd rs = map (\<lambda>i. if 7 dvd (i + 1) then Some Overconsumption else None)
                             [0..<length es]
           \<and> dict_get (combo_count s') ''coffee_mission'' 0 = int (length es mod 7)))
   \<and> (dict_get (combo_count s) ''coffee_mission'' 0 = 6 \<longrightarrow>
      (\<exists>resp s'. coffee_mission cre e s = Inr ((resp, Some Overconsumption), s')
           \<and> performed s s' = (if boss_alert_level s \<ge> 5 then [Sleep 20] else [])
                 @ [DecreaseStress (draw (10, 30) e), MaybeIncreaseBossAlert,
                    DecreaseStress 10, MaybeIncreaseBossAlert]
           \<and> 10 \<le> draw (10, 30) e \<and> draw (10, 30) e \<le> 30
           \<and> stress_level s' =
                 max 0 (min 100 (max 0 (min 100 (stress_level s - draw (10, 30) e)) - 10))
           \<and> boss_alert_level s' = alert2 e (alert1 e (boss_alert_level s))
           \<and> dict_get (combo_count s') ''coffee_mission'' 0 = 0))"
proof (intro conjI impI)
  assume z: "dict_get (combo_count s) ''coffee_mission'' 0 = 0"
  then have "dict_get (combo_count s) ''coffee_mission'' 0 = int 0" by simp
  from coffee_run [OF this, of cre es]
  show "\<exists>rs s'. run (map (coffee_mission cre) es) s = Inr (rs, s')
           \<and> map snd rs = map (\<lambda>i. if 7 dvd (i + 1) then Some Overconsumption else None)
                             [0..<length es]
           \<and> dict_get (combo_count s') ''coffee_mission'' 0 = int (length es mod 7)"
    by simp
next
  assume six: "dict_get (combo_count s) ''coffee_mission'' 0 = 6"
  let ?s1 = "after ''coffee_mission'' (10, 30) e s"
  have b: "bonus ''coffee_mission'' (10, 30) e s = Some Overconsumption"
    unfolding coffee_bonus six by simp
  have d: "10 \<le> draw (10, 30) e \<and> draw (10, 30) e \<le> 30"
    using draw_range [of "(10, 30)" e] by simp
  have p: "performed s ?s1 = (if boss_alert_level s \<ge> 5 then [Sleep 20] else [])
                 @ [DecreaseStress (draw (10, 30) e), MaybeIncreaseBossAlert,
                    DecreaseStress 10, MaybeIncreaseBossAlert]"
    unfolding after_calls b by simp
  have st: "stress_level ?s1 =
                 max 0 (min 100 (max 0 (min 100 (stress_level s - draw (10, 30) e)) - 10))"
    unfolding after_stress b by simp
  have al: "boss_alert_level ?s1 = alert2 e (alert1 e (boss_alert_level s))"
    unfolding after_alert b by simp
  have cc: "dict_get (combo_count ?s1) ''coffee_mission'' 0 = 0"
    unfolding after_own b by simp
  have step: "coffee_mission cre e s =
     Inr ((format_response cre ''coffee_mission'' ''Coffee mission with office tour'' ?s1,
           Some Overconsumption), ?s1)"
    unfolding coffee_step b by (rule refl)
  show "\<exists>resp s'. coffee_mission cre e s = Inr ((resp, Some Overconsumption), s')
           \<and> performed s s' = (if boss_alert_level s \<ge> 5 then [Sleep 20] else [])
                 @ [DecreaseStress (draw (10, 30) e), MaybeIncreaseBossAlert,
                    DecreaseStress 10, MaybeIncreaseBossAlert]
           \<and> 10 \<le> draw (10, 30) e \<and> draw (10, 30) e \<le> 30
           \<and> stress_level s' =
                 max 0 (min 100 (max 0 (min 100 (stress_level s - draw (10, 30) e)) - 10))
           \<and> boss_alert_level s' = alert2 e (alert1 e (boss_alert_level s))
           \<and> dict_get (combo_count s') ''coffee_mission'' 0 = 0"
    using step p d st al cc by blast
qed

theorem coffee_overconsumption_every_seventh_witness:
  "dict_get (combo_count session_start) ''coffee_mission'' 0 = 0
   \<and> (\<exists>rs s'. run (map (coffee_mission plain) (replicate 14 calm)) session_start = Inr (rs, s')
           \<and> map snd rs = [None, None, None, None, None, None, Some Overconsumption,
                            None, None, None, None, None, None, Some Overconsumption]
           \<and> dict_get (combo_count s') ''coffee_mission'' 0 = 0)
   \<and> dict_get (combo_count six_coffees) ''coffee_mission'' 0 = 6
   \<and> (\<exists>resp s'. coffee_mission plain calm six_coffees = Inr ((resp, Some Overconsumption), s')
           \<and> performed six_coffees s' =
                 [DecreaseStress 10, MaybeIncreaseBossAlert, DecreaseStress 10, MaybeIncreaseBossAlert]
           \<and> stress_level s' = 20
           \<and> dict_get (combo_count s') ''coffee_mission'' 0 = 0)"
proof -
  have h0: "dict_get (combo_count session_start) ''coffee_mission'' 0 = 0"
    by (simp add: session_start_def initialize_state_def dict_get_def)
  have h6: "dict_get (combo_count six_coffees) ''coffee_mission'' 0 = 6"
    by (simp add: six_coffees_def dict_get_def)
  have d: "draw (10, 30) calm = 10" by (simp add: draw_def calm_def)
  have v: "boss_alert_level six_coffees = 0" "stress_level six_coffees = 40"
    by (simp_all add: six_coffees_def)
  note t1 = coffee_overconsumption_every_seventh [of session_start plain "replicate 14 calm" calm]
  note t2 = coffee_overconsumption_every_seventh [of six_coffees plain "replicate 14 calm" calm]
  from t1 h0 obtain rs s' where
    run: "run (map (coffee_mission plain) (replicate 14 calm)) session_start = Inr (rs, s')"
    and ev: "map snd rs = map (\<lambda>i. if 7 dvd (i + 1) then Some Overconsumption else None)
                             [0..<length (replicate 14 calm)]"
    and fin: "dict_get (combo_count s') ''coffee_mission'' 0 = int (length (replicate 14 calm) mod 7)"
    by blast
  have ev': "map snd rs = [None, None, None, None, None, None, Some Overconsumption,
                            None, None, None, None, None, None, Some Overconsumption]"
    using ev by (simp only: length_replicate every_seventh_of_fourteen)
  have fin': "dict_get (combo_count s') ''coffee_mission'' 0 = 0"
    using fin by simp
  from run ev' fin' have a: "\<exists>rs s'. run (map (coffee_mission plain) (replicate 14 calm)) session_start = Inr (rs, s')
           \<and> map snd rs = [None, None, None, None, None, None, Some Overconsumption,
                            None, None, None, None, None, None, Some Overconsumption]
           \<and> dict_get (combo_count s') ''coffee_mission'' 0 = 0"
    by (intro exI conjI)
  from t2 h6 have b: "\<exists>resp s'. coffee_mission plain calm six_coffees = Inr ((resp, Some Overconsumption), s')
           \<and> performed six_coffees s' =
                 [DecreaseStress 10, MaybeIncreaseBossAlert, DecreaseStress 10, MaybeIncreaseBossAlert]
           \<and> stress_level s' = 20
           \<and> dict_get (combo_count s') ''coffee_mission'' 0 = 0"
    by (simp add: d v, blast)
  from h0 a h6 b show ?thesis by (intro conjI)
qed

text \<open>
  Claim C3. From every state, whatever its stress level, the three invocations
  deep thinking, coffee mission, basic break return no bonus, no bonus and the
  awakening bonus; the third one ends with a further stress decrease of 100, and the
  stress level is exactly 0 afterwards.
\<close>

theorem awakening_forces_stress_zero:
  "\<exists>r1 r2 r3 s' before d.
      run [deep_thinking cre e1, coffee_mission cre e2, take_a_break cre e3] s
        = Inr ([r1, r2, r3], s')
      \<and> snd r1 = None \<and> snd r2 = None \<and> snd r3 = Some Awakening
      \<and> stress_level s' = 0
      \<and> calls s' = before @ [DecreaseStress d, MaybeIncreaseBossAlert, DecreaseStress 100]
      \<and> 5 \<le> d \<and> d \<le> 20"
proof -
  define s1 where "s1 = after ''deep_thinking'' (20, 45) e1 s"
  define s2 where "s2 = after ''coffee_mission'' (10, 30) e2 s1"
  define s3 where "s3 = after ''take_a_break'' (5, 20) e3 s2"
  have b1: "bonus ''deep_thinking'' (20, 45) e1 s = None"
    by (simp add: bonus_eq window_not_ending)
  have "dict_get (combo_count s1) ''coffee_mission'' 0 = 0"
    unfolding s1_def by (rule after_others) simp
  then have b2: "bonus ''coffee_mission'' (10, 30) e2 s1 = None"
    by (simp add: bonus_eq window_not_ending)
  have w: "last_three (recent_actions s2 @ [''take_a_break''])
             = [''deep_thinking'', ''coffee_mission'', ''take_a_break'']"
    unfolding s2_def s1_def by (rule window_three)
  have b3: "bonus ''take_a_break'' (5, 20) e3 s2 = Some Awakening"
    by (simp add: bonus_eq w)
  have st: "stress_level s3 = 0"
    unfolding s3_def by (simp add: after_stress b3)
  have cs: "calls s3 = (calls s2 @ (if boss_alert_level s2 \<ge> 5 then [Sleep 20] else []))
              @ [DecreaseStress (draw (5, 20) e3), MaybeIncreaseBossAlert, DecreaseStress 100]"
    unfolding s3_def after_calls_append [of _ _ _ s2] by (simp add: after_calls b3)
  have run: "run [deep_thinking cre e1, coffee_mission cre e2, take_a_break cre e3] s =
      Inr ([(format_response cre ''deep_thinking''
               ''Deep philosophical contemplation (definitely not spacing out)'' s1, None),
            (format_response cre ''coffee_mission'' ''Coffee mission with office tour'' s2, None),
            (format_response cre ''take_a_break'' ''Basic break - recharging AI batteries'' s3,
               Some Awakening)], s3)"
    by (simp add: deep_thinking_def coffee_mission_def take_a_break_def execute_break_tool_eq
        b1 b2 b3 flip: s1_def s2_def s3_def)
  have d: "5 \<le> draw (5, 20) e3" "draw (5, 20) e3 \<le> 20"
    using draw_range [of "(5, 20)" e3] by simp_all
  show ?thesis
    apply (intro exI conjI)
           apply (rule run)
          apply simp
         apply simp
        apply simp
       apply (rule st)
      apply (rule cs)
     apply (rule d(1))
    apply (rule d(2))
    done
qed

theorem awakening_forces_stress_zero_witness:
  "\<exists>r1 r2 r3 s' before d.
      run [deep_thinking plain calm, coffee_mission plain caught, take_a_break plain calm] session_start
        = Inr ([r1, r2, r3], s')
      \<and> snd r1 = None \<and> snd r2 = None \<and> snd r3 = Some Awakening
      \<and> stress_level s' = 0
      \<and> calls s' = before @ [DecreaseStress d, MaybeIncreaseBossAlert, DecreaseStress 100]
      \<and> 5 \<le> d \<and> d \<le> 20"
  by (rule awakening_forces_stress_zero [of plain calm caught calm session_start])

text \<open>
  Claim C4, as amended. If the history holds at most 10 entries, as it does from the
  start of a session on, then after any number of invocations with non-empty ranges it
  still holds at most 10, namely the last 10 of the old entries followed by the tool
  names invoked, in order. After 11 invocations from the empty history it is the names
  of the invocations 2 to 11: the entry of the first invocation has been evicted, and
  its name is absent unless the same tool was invoked again among those ten.
\<close>

theorem history_keeps_last_ten:
  assumes "list_all valid_range cs" and "length (recent_actions s) \<le> 10"
  shows "\<exists>rs s'. run (map (invoke cre) cs) s = Inr (rs, s')
           \<and> length (recent_actions s') \<le> 10
           \<and> recent_actions s' =
               drop (length (recent_actions s @ map fst cs) - 10) (recent_actions s @ map fst cs)
           \<and> (recent_actions s = [] \<and> length cs = 11 \<longrightarrow> recent_actions s' = tl (map fst cs))"
proof -
  from run_history [OF assms, of cre] obtain rs s' where
    run: "run (map (invoke cre) cs) s = Inr (rs, s')"
    and h: "recent_actions s' =
               drop (length (recent_actions s @ map fst cs) - 10) (recent_actions s @ map fst cs)"
    by blast
  have len: "length (recent_actions s') \<le> 10"
    unfolding h by simp
  have tl: "recent_actions s' = tl (map fst cs)" if "recent_actions s = [] \<and> length cs = 11"
    unfolding h using that by (simp add: drop_Suc)
  show ?thesis
    using run len h tl by (intro exI conjI impI)
qed

theorem history_keeps_last_ten_witness:
  "list_all valid_range
     ((''urgent_call'', ''Urgent call - absolutely cannot be interrupted'', (15, 35), calm)
      # replicate 10 (''take_a_break'', ''Basic break - recharging AI batteries'', (5, 20), calm))
   \<and> length (recent_actions session_start) \<le> 10
   \<and> (\<exists>rs s'. run (map (invoke plain)
          ((''urgent_call'', ''Urgent call - absolutely cannot be interrupted'', (15, 35), calm)
           # replicate 10 (''take_a_break'', ''Basic break - recharging AI batteries'', (5, 20), calm)))
          session_start = Inr (rs, s')
        \<and> recent_actions s' = replicate 10 ''take_a_break'')"
proof -
  let ?cs = "(''urgent_call'', ''Urgent call - absolutely cannot be interrupted'', (15 :: int, 35 :: int), calm)
      # replicate 10 (''take_a_break'', ''Basic break - recharging AI batteries'', (5 :: int, 20 :: int), calm)"
  have v: "list_all valid_range ?cs"
    by (simp add: list_all_iff valid_range_def)
  have e: "recent_actions session_start = []"
    by (simp add: session_start_def initialize_state_def)
  then have l: "length (recent_actions session_start) \<le> 10" by simp
  from history_keeps_last_ten [OF v l, of plain] obtain rs s' where
    run: "run (map (invoke plain) ?cs) session_start = Inr (rs, s')"
    and eleven: "recent_actions session_start = [] \<and> length ?cs = 11 \<longrightarrow>
                   recent_actions s' = tl (map fst ?cs)"
    by blast
  have "recent_actions s' = replicate 10 ''take_a_break''"
    using eleven e by simp
  with run have "\<exists>rs s'. run (map (invoke plain) ?cs) session_start = Inr (rs, s')
        \<and> recent_actions s' = replicate 10 ''take_a_break''"
    by blast
  with v l show ?thesis by (intro conjI)
qed

text \<open>
  The claim C4 as the specification words it fails when the tool invoked first is
  invoked again: after eleven basic breaks the history consists of that very name.
\<close>

theorem first_identifier_still_present:
  "history_of (run (replicate 11 (take_a_break plain calm)) session_start)
     = Some (replicate 10 ''take_a_break'')"
proof -
  let ?c = "(''take_a_break'', ''Basic break - recharging AI batteries'', (5 :: int, 20 :: int), calm)"
  have v: "list_all valid_range (replicate 11 ?c)"
    by (simp add: list_all_iff valid_range_def)
  have l: "length (recent_actions session_start) \<le> 10"
    by (simp add: session_start_def initialize_state_def)
  from run_history [OF v l, of plain] obtain rs s' where
    run: "run (map (invoke plain) (replicate 11 ?c)) session_start = Inr (rs, s')"
    and h: "recent_actions s' =
               drop (length (recent_actions session_start @ map fst (replicate 11 ?c)) - 10)
                 (recent_actions session_start @ map fst (replicate 11 ?c))"
    by blast
  have e: "recent_actions session_start = []"
    by (simp add: session_start_def initialize_state_def)
  have "recent_actions s' = replicate 10 ''take_a_break''"
    unfolding h e by simp
  moreover have "run (replicate 11 (take_a_break plain calm)) session_start = Inr (rs, s')"
    using run by (simp only: take_a_break_invoke map_replicate)
  ultimately show ?thesis
    by (simp add: history_of_def state_of_def)
qed

text \<open>
  Claim C7. For any three invocations in a row, the third returns the master-routine
  bonus if and only if the three tools are bathroom break, email organizing, watch
  netflix in this order; so no other order of these three triggers it, and from the
  empty history the first two calls do not trigger it either. In the exact order the
  first two calls return no bonus, the third ends with a further stress decrease of 50,
  and no counter is reset: the one of watch netflix reads 1.
\<close>

theorem master_routine_exact_order:
  assumes "fst r1 \<le> snd r1" and "fst r2 \<le> snd r2" and "fst r3 \<le> snd r3"
  shows "\<exists>rs2 s2 resp ev s3.
      run [execute_break_tool cre t1 sm1 r1 e1, execute_break_tool cre t2 sm2 r2 e2] s = Inr (rs2, s2)
      \<and> execute_break_tool cre t3 sm3 r3 e3 s2 = Inr ((resp, ev), s3)
      \<and> (ev = Some MasterRoutine \<longleftrightarrow>
            [t1, t2, t3] = [''bathroom_break'', ''email_organizing'', ''watch_netflix''])
      \<and> ([t1, t2, t3] = [''bathroom_break'', ''email_organizing'', ''watch_netflix''] \<longrightarrow>
            map snd rs2 = [None, None]
            \<and> performed s2 s3 = (if boss_alert_level s2 \<ge> 5 then [Sleep 20] else [])
                 @ [DecreaseStress (draw r3 e3), MaybeIncreaseBossAlert, DecreaseStress 50]
            \<and> stress_level s3 =
                 max 0 (min 100 (max 0 (min 100 (stress_level s2 - draw r3 e3)) - 50))
            \<and> dict_get (combo_count s3) ''watch_netflix'' 0 = 1
            \<and> dict_get (combo_count s3) ''bathroom_break'' 0 = 0
            \<and> dict_get (combo_count s3) ''email_organizing'' 0 = 0)
      \<and> (recent_actions s = [] \<longrightarrow> Some MasterRoutine \<notin> set (map snd rs2))"
proof -
  define s1 where "s1 = after t1 r1 e1 s"
  define s2 where "s2 = after t2 r2 e2 s1"
  define s3 where "s3 = after t3 r3 e3 s2"
  let ?triple = "[''bathroom_break'', ''email_organizing'', ''watch_netflix'']"
  have w: "last_three (recent_actions s2 @ [t3]) = [t1, t2, t3]"
    unfolding s2_def s1_def by (rule window_three)
  have run: "run [execute_break_tool cre t1 sm1 r1 e1, execute_break_tool cre t2 sm2 r2 e2] s =
      Inr ([(format_response cre t1 sm1 s1, bonus t1 r1 e1 s),
            (format_response cre t2 sm2 s2, bonus t2 r2 e2 s1)], s2)"
    by (simp add: execute_break_tool_eq assms flip: s1_def s2_def)
  have third: "execute_break_tool cre t3 sm3 r3 e3 s2 =
      Inr ((format_response cre t3 sm3 s3, bonus t3 r3 e3 s2), s3)"
    by (simp add: execute_break_tool_eq assms flip: s3_def)
  have iff: "bonus t3 r3 e3 s2 = Some MasterRoutine \<longleftrightarrow> [t1, t2, t3] = ?triple"
    unfolding bonus_eq w by auto
  have exact: "map snd [(format_response cre t1 sm1 s1, bonus t1 r1 e1 s),
            (format_response cre t2 sm2 s2, bonus t2 r2 e2 s1)] = [None, None]
            \<and> performed s2 s3 = (if boss_alert_level s2 \<ge> 5 then [Sleep 20] else [])
                 @ [DecreaseStress (draw r3 e3), MaybeIncreaseBossAlert, DecreaseStress 50]
            \<and> stress_level s3 =
                 max 0 (min 100 (max 0 (min 100 (stress_level s2 - draw r3 e3)) - 50))
            \<and> dict_get (combo_count s3) ''watch_netflix'' 0 = 1
            \<and> dict_get (combo_count s3) ''bathroom_break'' 0 = 0
            \<and> dict_get (combo_count s3) ''email_organizing'' 0 = 0"
    if eq: "[t1, t2, t3] = ?triple"
  proof -
    from eq have t: "t1 = ''bathroom_break''" "t2 = ''email_organizing''" "t3 = ''watch_netflix''"
      by simp_all
    have b1: "bonus t1 r1 e1 s = None"
      unfolding t by (simp add: bonus_eq window_not_ending)
    have b2: "bonus t2 r2 e2 s1 = None"
      unfolding t by (simp add: bonus_eq window_not_ending)
    have b3: "bonus t3 r3 e3 s2 = Some MasterRoutine"
      using iff eq by simp
    have n0: "dict_get (combo_count s2) ''watch_netflix'' 0 = 0"
      unfolding s2_def t by (rule after_others) simp
    have n1: "dict_get (combo_count s3) ''watch_netflix'' 0 = 1"
      unfolding s3_def t(3) after_own using b3 n0 by (simp add: t)
    have o1: "dict_get (combo_count s3) ''bathroom_break'' 0 = 0"
      unfolding s3_def t by (rule after_others) simp
    have o2: "dict_get (combo_count s3) ''email_organizing'' 0 = 0"
      unfolding s3_def t by (rule after_others) simp
    have p: "performed s2 s3 = (if boss_alert_level s2 \<ge> 5 then [Sleep 20] else [])
                 @ [DecreaseStress (draw r3 e3), MaybeIncreaseBossAlert, DecreaseStress 50]"
      unfolding s3_def after_calls b3 by simp
    have st: "stress_level s3 =
                 max 0 (min 100 (max 0 (min 100 (stress_level s2 - draw r3 e3)) - 50))"
      unfolding s3_def after_stress b3 by simp
    show ?thesis using b1 b2 n1 o1 o2 p st by simp
  qed
  have fresh: "Some MasterRoutine \<notin> set (map snd [(format_response cre t1 sm1 s1, bonus t1 r1 e1 s),
            (format_response cre t2 sm2 s2, bonus t2 r2 e2 s1)])"
    if e: "recent_actions s = []"
  proof -
    have h1: "recent_actions s1 = [t1]"
      unfolding s1_def after_history e by simp
    have "bonus t1 r1 e1 s \<noteq> Some MasterRoutine"
      unfolding bonus_eq e by (simp add: last_three_def)
    moreover have "bonus t2 r2 e2 s1 \<noteq> Some MasterRoutine"
      unfolding bonus_eq h1 by (simp add: last_three_def)
    ultimately show ?thesis by simp
  qed
  show ?thesis
    apply (intro exI conjI)
        apply (rule run)
       apply (rule third)
      apply (rule iff)
     apply (rule impI)
     apply (erule exact)
    apply (rule impI)
    apply (erule fresh)
    done
qed

theorem master_routine_exact_order_witness:
  "fst (15, 30) \<le> snd (15 :: int, 30 :: int) \<and> fst (10, 35) \<le> snd (10 :: int, 35 :: int)
   \<and> fst (20, 40) \<le> snd (20 :: int, 40 :: int)
   \<and> (\<exists>rs2 s2 resp s3.
        run [bathroom_break plain calm, email_organizing plain calm] session_start = Inr (rs2, s2)
        \<and> watch_netflix plain calm s2 = Inr ((resp, Some MasterRoutine), s3)
        \<and> map snd rs2 = [None, None]
        \<and> dict_get (combo_count s3) ''watch_netflix'' 0 = 1)
   \<and> (\<exists>rs2 s2 resp ev s3.
        run [email_organizing plain calm, bathroom_break plain calm] session_start = Inr (rs2, s2)
        \<and> watch_netflix plain calm s2 = Inr ((resp, ev), s3)
        \<and> ev \<noteq> Some MasterRoutine
        \<and> Some MasterRoutine \<notin> set (map snd rs2))"
proof -
  have h: "fst (15, 30) \<le> snd (15 :: int, 30 :: int)" "fst (10, 35) \<le> snd (10 :: int, 35 :: int)"
    "fst (20, 40) \<le> snd (20 :: int, 40 :: int)"
    by simp_all
  have e: "recent_actions session_start = []"
    by (simp add: session_start_def initialize_state_def)
  note i1 = master_routine_exact_order [OF h, of plain "''bathroom_break''"
      "''Bathroom break with phone browsing''" calm "''email_organizing''"
      "''Email organization (and online shopping research)''" calm session_start
      "''watch_netflix''" "''Netflix and chill - quality entertainment time''" calm,
      folded bathroom_break_def email_organizing_def watch_netflix_def]
  from i1 obtain rs2 s2 resp ev s3 where
    r: "run [bathroom_break plain calm, email_organizing plain calm] session_start = Inr (rs2, s2)"
    and th: "watch_netflix plain calm s2 = Inr ((resp, ev), s3)"
    and iff: "ev = Some MasterRoutine \<longleftrightarrow>
        [''bathroom_break'', ''email_organizing'', ''watch_netflix'']
          = [''bathroom_break'', ''email_organizing'', ''watch_netflix'']"
    and ex: "[''bathroom_break'', ''email_organizing'', ''watch_netflix'']
          = [''bathroom_break'', ''email_organizing'', ''watch_netflix''] \<longrightarrow>
        map snd rs2 = [None, None]
        \<and> performed s2 s3 = (if boss_alert_level s2 \<ge> 5 then [Sleep 20] else [])
             @ [DecreaseStress (draw (20, 40) calm), MaybeIncreaseBossAlert, DecreaseStress 50]
        \<and> stress_level s3 =
             max 0 (min 100 (max 0 (min 100 (stress_level s2 - draw (20, 40) calm)) - 50))
        \<and> dict_get (combo_count s3) ''watch_netflix'' 0 = 1
        \<and> dict_get (combo_count s3) ''bathroom_break'' 0 = 0
        \<and> dict_get (combo_count s3) ''email_organizing'' 0 = 0"
    by (elim exE conjE) (rule that; assumption)
  from iff have ev: "ev = Some MasterRoutine" by simp
  from ex have n: "map snd rs2 = [None, None]"
    and c: "dict_get (combo_count s3) ''watch_netflix'' 0 = 1"
    by simp_all
  from r th [unfolded ev] n c have a: "\<exists>rs2 s2 resp s3.
        run [bathroom_break plain calm, email_organizing plain calm] session_start = Inr (rs2, s2)
        \<and> watch_netflix plain calm s2 = Inr ((resp, Some MasterRoutine), s3)
        \<and> map snd rs2 = [None, None]
        \<and> dict_get (combo_count s3) ''watch_netflix'' 0 = 1"
    by (intro exI conjI)
  note i2 = master_routine_exact_order [OF h(2) h(1) h(3), of plain "''email_organizing''"
      "''Email organization (and online shopping research)''" calm "''bathroom_break''"
      "''Bathroom break with phone browsing''" calm session_start
      "''watch_netflix''" "''Netflix and chill - quality entertainment time''" calm,
      folded bathroom_break_def email_organizing_def watch_netflix_def]
  from i2 obtain qs2 q2 resp' ev' q3 where
    r': "run [email_organizing plain calm, bathroom_break plain calm] session_start = Inr (qs2, q2)"
    and th': "watch_netflix plain calm q2 = Inr ((resp', ev'), q3)"
    and iff': "ev' = Some MasterRoutine \<longleftrightarrow>
        [''email_organizing'', ''bathroom_break'', ''watch_netflix'']
          = [''bathroom_break'', ''email_organizing'', ''watch_netflix'']"
    and fr: "recent_actions session_start = [] \<longrightarrow> Some MasterRoutine \<notin> set (map snd qs2)"
    by (elim exE conjE) (rule that; assumption)
  from iff' have ne: "ev' \<noteq> Some MasterRoutine" by simp
  from fr e have nm: "Some MasterRoutine \<notin> set (map snd qs2)" by simp
  from r' th' ne nm have b: "\<exists>rs2 s2 resp ev s3.
        run [email_organizing plain calm, bathroom_break plain calm] session_start = Inr (rs2, s2)
        \<and> watch_netflix plain calm s2 = Inr ((resp, ev), s3)
        \<and> ev \<noteq> Some MasterRoutine
        \<and> Some MasterRoutine \<notin> set (map snd rs2)"
    by (intro exI conjI)
  from h a b show ?thesis by (intro conjI)
qed

end
